theory Spec2Isabelle
  imports Main "HOL-Library.Word"
begin

section \<open>Data model of pkg/models\<close>

text \<open>
  Go's \<open>uint\<close>, at its width on 64-bit platforms, is a 64-bit unsigned word and
  \<open>time.Duration\<close> (an \<open>int64\<close>) a 64-bit signed one, compared with \<open><s\<close> and
  \<open>\<le>s\<close>; both wrap around. A byte slice is a
  \<open>string\<close> (a list of 8-bit characters). A Go \<open>error\<close> or pointer that may be
  \<open>nil\<close> is an \<open>option\<close>, \<open>None\<close> being \<open>nil\<close>.
\<close>

type_synonym uint = "64 word"
type_synonym Duration = "64 word"

text \<open>errors.go: \<open>ErrorDetail\<close>, \<open>WatsonxError\<close>, \<open>WatsonxErrorResponse\<close>.\<close>

record ErrorDetail =
  Code :: string
  Message :: string
  MoreInfo :: string

record WatsonxError =
  StatusCode :: int
  Errors :: "ErrorDetail list"
  Trace :: string

text \<open>
  \<open>WatsonxErrorResponse\<close> has the fields \<open>Errors\<close> and \<open>Trace\<close> too; its selectors
  are prefixed here so that they do not hide those of \<open>WatsonxError\<close>.
\<close>

datatype WatsonxErrorResponse =
  WatsonxErrorResponse (apiErrors: "ErrorDetail list") (apiTrace: string)

text \<open>
  A value of the interface type \<open>error\<close>: a \<open>*WatsonxError\<close>, or any other error
  (a transport error, a read error, a context error), known by its message.
\<close>

datatype error = WatsonxErr WatsonxError | OtherError string

text \<open>
  An \<open>io.ReadCloser\<close>: the bytes that reading it will still deliver, and how the
  stream ends (\<open>None\<close> for a clean end of file, an error otherwise).
\<close>

datatype ReadCloser = ReadCloser (content: string) (failure: "error option")

text \<open>
  \<open>io.ReadAll\<close> returns the bytes read and the error met, a clean end of file being
  no error; the stream is left drained.
\<close>

definition io_ReadAll :: "ReadCloser \<Rightarrow> (string \<times> error option) \<times> ReadCloser" where
  "io_ReadAll b = ((content b, failure b), ReadCloser [] (failure b))"

text \<open>\<open>io.NopCloser(bytes.NewBuffer(body))\<close>: a fresh in-memory stream over \<open>body\<close>.\<close>

definition NopCloser_Buffer :: "string \<Rightarrow> ReadCloser" where
  "NopCloser_Buffer body = ReadCloser body None"

text \<open>The two fields of \<open>http.Response\<close> that the package reads or writes.\<close>

datatype Response = Response (resp_StatusCode: int) (resp_Body: ReadCloser)

definition http_StatusOK :: int where
  "http_StatusOK = 200"

section \<open>errors.go: DecodeWatsonxError\<close>

text \<open>
  \<open>json.Unmarshal(body, &apiErr)\<close> belongs to the standard library; it is a parameter:
  \<open>Inl\<close> its error, \<open>Inr\<close> the envelope it filled in. The function returns the error
  value together with the response as it leaves it (the body is replaced in place).
\<close>

type_synonym Unmarshal = "string \<Rightarrow> error + WatsonxErrorResponse"

definition DecodeWatsonxError ::
  "Unmarshal \<Rightarrow> Response option \<Rightarrow> error option \<times> Response option" where
  "DecodeWatsonxError json_Unmarshal resp =
     (case resp of
        None \<Rightarrow> (Some (WatsonxErr \<lparr>StatusCode = 0, Errors = [], Trace = []\<rparr>), None)
      | Some r \<Rightarrow>
          (case io_ReadAll (resp_Body r) of
             ((body, Some err), drained) \<Rightarrow>
               (Some (WatsonxErr \<lparr>StatusCode = resp_StatusCode r, Errors = [], Trace = []\<rparr>),
                Some (Response (resp_StatusCode r) drained))
           | ((body, None), drained) \<Rightarrow>
               (let r' = Response (resp_StatusCode r) (NopCloser_Buffer body);
                    wxErr = \<lparr>StatusCode = resp_StatusCode r, Errors = [], Trace = []\<rparr>
                in if length body = 0 then (Some (WatsonxErr wxErr), Some r')
                   else (case json_Unmarshal body of
                           Inl err \<Rightarrow> (Some (WatsonxErr wxErr), Some r')
                         | Inr apiErr \<Rightarrow>
                             (Some (WatsonxErr (wxErr\<lparr>Errors := apiErrors apiErr,
                                                        Trace := apiTrace apiErr\<rparr>)),
                              Some r')))))"

section \<open>retry.go: configuration\<close>

text \<open>
  The closures the caller passes (the operation, \<open>onRetry\<close>, \<open>retryIf\<close>) and the
  world they act on share one state \<open>'s\<close>, threaded through every call. The closures
  are total functions: a nil function value, whose call panics in Go, and a closure that
  panics itself are outside the model.

  A \<open>Timer\<close> has one method; \<open>After d\<close> is the world once the timer has delivered.
  Of a \<open>context.Context\<close> two methods are used: \<open>Err\<close>, and \<open>Done\<close> inside the
  \<open>select\<close> of the wait. \<open>Done d s = Some s'\<close> says that, waiting in world \<open>s\<close> on a
  timer of \<open>d\<close>, the receive from \<open>Done()\<close> is the case the \<open>select\<close> takes, in
  world \<open>s'\<close>; \<open>None\<close> says that the timer's case is taken.
\<close>

record 's Timer =
  After :: "Duration \<Rightarrow> 's \<Rightarrow> 's"

record 's Context =
  Err :: "'s \<Rightarrow> error option"
  Done :: "Duration \<Rightarrow> 's \<Rightarrow> 's option"

record 's RetryConfig =
  retries :: uint
  backoff :: Duration
  maxJitter :: Duration
  onRetry :: "uint \<Rightarrow> error option \<Rightarrow> 's \<Rightarrow> 's"
  retryIf :: "error option \<Rightarrow> 's \<Rightarrow> bool \<times> 's"
  timer :: "'s Timer"
  ctxt :: "'s Context"

type_synonym 's RetryOption = "'s RetryConfig \<Rightarrow> 's RetryConfig"

type_synonym 's RetryableFuncWithResponse =
  "'s \<Rightarrow> (Response option \<times> error option) \<times> 's"

text \<open>
  What retry.go takes from the standard library and the runtime: \<open>json.Unmarshal\<close>,
  \<open>rand.Int63n\<close> and the effect on the world of \<open>time.After\<close> delivering.
\<close>

record 's Env =
  json_Unmarshal :: Unmarshal
  rand_Int63n :: "64 word \<Rightarrow> 's \<Rightarrow> 64 word \<times> 's"
  time_After :: "Duration \<Rightarrow> 's \<Rightarrow> 's"

definition time_Second :: Duration where
  "time_Second = 1000000000"

definition timerImpl :: "'s Env \<Rightarrow> 's Timer" where
  "timerImpl env = \<lparr>After = time_After env\<rparr>"

text \<open>\<open>context.Background()\<close> is never cancelled: \<open>Err\<close> is nil, \<open>Done\<close> never fires.\<close>

definition context_Background :: "'s Context" where
  "context_Background = \<lparr>Err = (\<lambda>s. None), Done = (\<lambda>d s. None)\<rparr>"

definition newDefaultRetryConfig :: "'s Env \<Rightarrow> 's RetryConfig" where
  "newDefaultRetryConfig env =
     \<lparr>retries = 3,
      backoff = 1 * time_Second,
      maxJitter = 1 * time_Second,
      onRetry = (\<lambda>n err s. s),
      retryIf = (\<lambda>err s. (err \<noteq> None, s)),
      timer = timerImpl env,
      ctxt = context_Background\<rparr>"

definition WithRetries :: "uint \<Rightarrow> 's RetryOption" where
  "WithRetries r = (\<lambda>cfg. cfg\<lparr>retries := r\<rparr>)"

definition WithBackoff :: "Duration \<Rightarrow> 's RetryOption" where
  "WithBackoff b = (\<lambda>cfg. cfg\<lparr>backoff := b\<rparr>)"

definition WithMaxJitter :: "Duration \<Rightarrow> 's RetryOption" where
  "WithMaxJitter j = (\<lambda>cfg. cfg\<lparr>maxJitter := j\<rparr>)"

definition WithOnRetry :: "(uint \<Rightarrow> error option \<Rightarrow> 's \<Rightarrow> 's) \<Rightarrow> 's RetryOption" where
  "WithOnRetry f = (\<lambda>cfg. cfg\<lparr>onRetry := f\<rparr>)"

definition WithRetryIf :: "(error option \<Rightarrow> 's \<Rightarrow> bool \<times> 's) \<Rightarrow> 's RetryOption" where
  "WithRetryIf p = (\<lambda>cfg. cfg\<lparr>retryIf := p\<rparr>)"

text \<open>The first loop of \<open>Retry\<close>: every option that is not nil is applied, in order.\<close>

fun apply_options :: "'s RetryOption option list \<Rightarrow> 's RetryConfig \<Rightarrow> 's RetryConfig" where
  "apply_options [] opts = opts"
| "apply_options (None # options) opts = apply_options options opts"
| "apply_options (Some opt # options) opts = apply_options options (opt opts)"

section \<open>retry.go: Retry\<close>

text \<open>
  The model records every call \<open>Retry\<close> makes, in order: the operation with what it
  returned, \<open>retryIf\<close> with its argument and its answer, \<open>onRetry\<close> with its
  arguments, and each wait with its duration, completed (\<open>Waited\<close>) or abandoned
  because the context was done (\<open>WaitCancelled\<close>).
\<close>

datatype event =
    is_Invoked: Invoked "Response option" "error option"
  | is_RetryIfCalled: RetryIfCalled "error option" bool
  | is_OnRetryCalled: OnRetryCalled uint "error option"
  | is_Waited: Waited Duration
  | is_WaitCancelled: WaitCancelled Duration

text \<open>What \<open>Retry\<close> returns, the calls it made, and the world it leaves.\<close>

type_synonym 's outcome = "(Response option \<times> error option) \<times> event list \<times> 's"

text \<open>
  Line 77: \<open>err == nil && resp != nil && resp.StatusCode == http.StatusOK\<close>.
\<close>

definition succeeded :: "Response option \<Rightarrow> error option \<Rightarrow> bool" where
  "succeeded resp err =
     (case err of
        Some e \<Rightarrow> False
      | None \<Rightarrow> (case resp of None \<Rightarrow> False | Some r \<Rightarrow> resp_StatusCode r = http_StatusOK))"

text \<open>
  Lines 81 to 96: the error of a failed attempt. With no error and a response present,
  the body is read and closed; a read error becomes the error, otherwise the body is put
  back and the response decoded. In every other case the error is left as it is.
\<close>

definition classify :: "Unmarshal \<Rightarrow> Response option \<Rightarrow> error option \<Rightarrow> error option" where
  "classify unm resp err =
     (case err of
        Some e \<Rightarrow> err
      | None \<Rightarrow>
          (case resp of
             None \<Rightarrow> err
           | Some r \<Rightarrow>
               (case io_ReadAll (resp_Body r) of
                  ((bodyBytes, Some readErr), drained) \<Rightarrow> Some readErr
                | ((bodyBytes, None), drained) \<Rightarrow>
                    fst (DecodeWatsonxError unm
                           (Some (Response (resp_StatusCode r) (NopCloser_Buffer bodyBytes)))))))"

text \<open>Lines 105 to 109: the backoff, plus a random jitter below \<open>maxJitter\<close> when that is positive.\<close>

definition backoffDuration :: "'s Env \<Rightarrow> 's RetryConfig \<Rightarrow> 's \<Rightarrow> Duration \<times> 's" where
  "backoffDuration env opts s =
     (if 0 <s maxJitter opts
      then (case rand_Int63n env (maxJitter opts) s of
              (jitter, s') \<Rightarrow> (backoff opts + jitter, s'))
      else (backoff opts, s))"

text \<open>
  One pass through the body of the loop (lines 72 to 115) for the index \<open>n\<close>: it
  either returns from \<open>Retry\<close>, or reaches the end of the body with a new \<open>lastErr\<close>.
\<close>

datatype 's step = Return "'s outcome" | Continue "error option" "event list" 's

definition Retry_body ::
  "'s Env \<Rightarrow> 's RetryConfig \<Rightarrow> 's RetryableFuncWithResponse \<Rightarrow> uint \<Rightarrow> event list \<Rightarrow> 's
     \<Rightarrow> 's step" where
  "Retry_body env opts retryableFunc n tr s =
     (case Err (ctxt opts) s of
        Some cerr \<Rightarrow> Return ((None, Some cerr), tr, s)
      | None \<Rightarrow>
          (case retryableFunc s of
             ((resp, err0), s1) \<Rightarrow>
               if succeeded resp err0 then Return ((resp, None), tr @ [Invoked resp err0], s1)
               else
                 (let err = classify (json_Unmarshal env) resp err0 in
                  case retryIf opts err s1 of
                    (again, s2) \<Rightarrow>
                      if \<not> again
                      then Return ((None, err),
                                   tr @ [Invoked resp err0, RetryIfCalled err again], s2)
                      else
                        (let s3 = onRetry opts (n + 1) err s2;
                             tr3 = tr @ [Invoked resp err0, RetryIfCalled err again,
                                         OnRetryCalled (n + 1) err]
                         in case backoffDuration env opts s3 of
                              (d, s4) \<Rightarrow>
                                (case Done (ctxt opts) d s4 of
                                   Some s5 \<Rightarrow>
                                     Return ((None, Err (ctxt opts) s5),
                                             tr3 @ [WaitCancelled d], s5)
                                 | None \<Rightarrow>
                                     Continue err (tr3 @ [Waited d])
                                       (After (timer opts) d s4))))))"

text \<open>The loop of lines 70 to 118, from the index \<open>n\<close> on.\<close>

function Retry_loop ::
  "'s Env \<Rightarrow> 's RetryConfig \<Rightarrow> 's RetryableFuncWithResponse \<Rightarrow> uint \<Rightarrow> error option
     \<Rightarrow> event list \<Rightarrow> 's \<Rightarrow> 's outcome" where
  "Retry_loop env opts retryableFunc n lastErr tr s =
     (if n < retries opts
      then (case Retry_body env opts retryableFunc n tr s of
              Return out \<Rightarrow> out
            | Continue err tr' s' \<Rightarrow> Retry_loop env opts retryableFunc (n + 1) err tr' s')
      else ((None, lastErr), tr, s))"
  by pat_completeness auto
termination
proof (relation "measure (\<lambda>(env, opts, f, n, lastErr, tr, s). unat (retries opts) - unat n)")
  show "wf (measure (\<lambda>(env :: 's Env, opts :: 's RetryConfig,
              f :: 's RetryableFuncWithResponse, n :: uint, lastErr :: error option,
              tr :: event list, s :: 's). unat (retries opts) - unat n))"
    by simp
next
  fix env :: "'s Env" and opts :: "'s RetryConfig" and f :: "'s RetryableFuncWithResponse"
    and n :: uint and lastErr :: "error option" and tr :: "event list" and s :: 's
    and err :: "error option" and tr' :: "event list" and s' :: 's
  assume "n < retries opts"
  then have less: "unat n < unat (retries opts)"
    by (simp add: word_less_nat_alt)
  moreover have "unat (retries opts) < 2 ^ 64"
    using unsigned_less [of "retries opts"] by simp
  ultimately have "unat n + 1 < 2 ^ 64"
    by linarith
  then have "unat (n + 1) = Suc (unat n)"
    by (simp add: unat_word_ariths)
  with less show "((env, opts, f, n + 1, err, tr', s'), (env, opts, f, n, lastErr, tr, s))
      \<in> measure (\<lambda>(env, opts, f, n, lastErr, tr, s). unat (retries opts) - unat n)"
    by simp
qed

text \<open>\<open>Retry_with\<close> is \<open>Retry\<close> once the configuration is built; \<open>Retry\<close> builds it first.\<close>

definition Retry_with ::
  "'s Env \<Rightarrow> 's RetryConfig \<Rightarrow> 's RetryableFuncWithResponse \<Rightarrow> 's \<Rightarrow> 's outcome" where
  "Retry_with env opts retryableFunc s = Retry_loop env opts retryableFunc 0 None [] s"

definition Retry ::
  "'s Env \<Rightarrow> 's RetryableFuncWithResponse \<Rightarrow> 's RetryOption option list \<Rightarrow> 's \<Rightarrow> 's outcome" where
  "Retry env retryableFunc options s =
     Retry_with env (apply_options options (newDefaultRetryConfig env)) retryableFunc s"

section \<open>Reading an outcome\<close>

abbreviation returned :: "'s outcome \<Rightarrow> Response option \<times> error option" where
  "returned out \<equiv> fst out"

abbreviation calls :: "'s outcome \<Rightarrow> event list" where
  "calls out \<equiv> fst (snd out)"

abbreviation world :: "'s outcome \<Rightarrow> 's" where
  "world out \<equiv> snd (snd out)"

text \<open>The attempt numbers passed to \<open>onRetry\<close>, in the order of the calls.\<close>

fun attempt_numbers :: "event list \<Rightarrow> uint list" where
  "attempt_numbers [] = []"
| "attempt_numbers (OnRetryCalled k e # evs) = k # attempt_numbers evs"
| "attempt_numbers (ev # evs) = attempt_numbers evs"

text \<open>What the most recent call of the operation returned, if it was called at all.\<close>

fun last_invoked :: "event list \<Rightarrow> (Response option \<times> error option) option" where
  "last_invoked [] = None"
| "last_invoked (Invoked resp err # evs) =
     (case last_invoked evs of None \<Rightarrow> Some (resp, err) | Some later \<Rightarrow> Some later)"
| "last_invoked (ev # evs) = last_invoked evs"

text \<open>
  The invariant that the specification states for a \<open>RetryConfig\<close>, and the options
  whose argument respects it (a nil option is skipped by \<open>Retry\<close>).
\<close>

definition RetryConfig_invariant :: "'s RetryConfig \<Rightarrow> bool" where
  "RetryConfig_invariant cfg \<longleftrightarrow> 1 \<le> retries cfg \<and> 0 \<le>s backoff cfg \<and> 0 \<le>s maxJitter cfg"

inductive checked_option :: "'s RetryOption option \<Rightarrow> bool" where
  nil: "checked_option None"
| retries: "1 \<le> r \<Longrightarrow> checked_option (Some (WithRetries r))"
| backoff: "0 \<le>s b \<Longrightarrow> checked_option (Some (WithBackoff b))"
| maxJitter: "0 \<le>s j \<Longrightarrow> checked_option (Some (WithMaxJitter j))"
| onRetry: "checked_option (Some (WithOnRetry g))"
| retryIf: "checked_option (Some (WithRetryIf p))"

section \<open>Fixtures of the tests\<close>

text \<open>
  The servers of the tests answer every request with one status and one body. The world
  of the fixtures is the number of requests served so far. The error envelope is the one
  of \<open>TestRetryReturnsWatsonxErrorWithDetails\<close>, without its white space; the
  fixture for \<open>json.Unmarshal\<close> knows that document and rejects every other one.
\<close>

definition errorResponse :: string where
  \<open>errorResponse = ''{"errors":[{"code":"invalid_request","message":"Invalid input parameter","more_info":"Check request payload"}],"trace":"trace-id-123"}''\<close>

definition unmarshal_fixture :: Unmarshal where
  "unmarshal_fixture body =
     (if body = errorResponse
      then Inr (WatsonxErrorResponse
                  [\<lparr>Code = ''invalid_request'', Message = ''Invalid input parameter'',
                    MoreInfo = ''Check request payload''\<rparr>] ''trace-id-123'')
      else Inl (OtherError ''invalid character''))"

definition env0 :: "nat Env" where
  "env0 = \<lparr>json_Unmarshal = unmarshal_fixture,
            rand_Int63n = (\<lambda>n s. (0, s)),
            time_After = (\<lambda>d s. s)\<rparr>"

definition server :: "int \<Rightarrow> string \<Rightarrow> nat RetryableFuncWithResponse" where
  "server code body = (\<lambda>s. ((Some (Response code (NopCloser_Buffer body)), None), Suc s))"

text \<open>
  An operation that fails differently at each call: first a transport error, then a
  response whose body cannot be read to its end, then a 502 whose body is not the
  envelope, and from then on the 400 with the envelope.
\<close>

definition flaky :: "nat RetryableFuncWithResponse" where
  "flaky = (\<lambda>s.
     (if s = 0 then (None, Some (OtherError ''connection refused''))
      else if s = 1
        then (Some (Response 503 (ReadCloser ''upstream'' (Some (OtherError ''unexpected EOF'')))),
              None)
      else if s = 2 then (Some (Response 502 (NopCloser_Buffer ''Bad Gateway'')), None)
      else (Some (Response 400 (NopCloser_Buffer errorResponse)), None),
      Suc s))"

text \<open>
  An operation that returns neither a response nor an error; the error of a cancelled
  context; a context that is cancelled once \<open>k\<close> requests have been served, put into a
  configuration in place of the default one; and a predicate that never retries.
\<close>

definition no_answer :: "nat RetryableFuncWithResponse" where
  "no_answer = (\<lambda>s. ((None, None), Suc s))"

definition canceled :: error where
  "canceled = OtherError ''context canceled''"

definition cancelled_after :: "nat \<Rightarrow> nat Context" where
  "cancelled_after k =
     \<lparr>Err = (\<lambda>s. if k \<le> s then Some canceled else None),
      Done = (\<lambda>d s. if k \<le> s then Some s else None)\<rparr>"

definition with_context :: "nat Context \<Rightarrow> nat RetryOption" where
  "with_context c = (\<lambda>cfg. cfg\<lparr>ctxt := c\<rparr>)"

definition never_retry :: "error option \<Rightarrow> nat \<Rightarrow> bool \<times> nat" where
  "never_retry = (\<lambda>err s. (False, s))"

section \<open>The loop, one step at a time\<close>

lemmas fixture_defs = env0_def server_def unmarshal_fixture_def

lemmas config_defs =
  newDefaultRetryConfig_def context_Background_def timerImpl_def time_Second_def
  WithRetries_def WithBackoff_def WithMaxJitter_def WithOnRetry_def WithRetryIf_def

lemmas attempt_defs =
  succeeded_def classify_def DecodeWatsonxError_def io_ReadAll_def NopCloser_Buffer_def
  http_StatusOK_def backoffDuration_def Let_def

declare Retry_loop.simps [simp del]

lemma Retry_loop_done:
  "\<not> n < retries opts \<Longrightarrow> Retry_loop env opts f n lastErr tr s = ((None, lastErr), tr, s)"
  by (simp add: Retry_loop.simps)

lemma Retry_loop_Return:
  "n < retries opts \<Longrightarrow> Retry_body env opts f n tr s = Return out \<Longrightarrow>
   Retry_loop env opts f n lastErr tr s = out"
  by (simp add: Retry_loop.simps)

lemma Retry_loop_Continue:
  "n < retries opts \<Longrightarrow> Retry_body env opts f n tr s = Continue err tr' s' \<Longrightarrow>
   Retry_loop env opts f n lastErr tr s = Retry_loop env opts f (n + 1) err tr' s'"
  by (simp add: Retry_loop.simps)

text \<open>The five ways through the body of the loop.\<close>

lemma Retry_body_cases [case_names Cancelled Success Vetoed WaitCancelled Continue]:
  obtains
    (Cancelled) cerr where
      "Err (ctxt opts) s = Some cerr"
      "Retry_body env opts f n tr s = Return ((None, Some cerr), tr, s)"
  | (Success) resp err0 s1 where
      "Err (ctxt opts) s = None" "f s = ((resp, err0), s1)" "succeeded resp err0"
      "Retry_body env opts f n tr s = Return ((resp, None), tr @ [Invoked resp err0], s1)"
  | (Vetoed) resp err0 s1 s2 where
      "Err (ctxt opts) s = None" "f s = ((resp, err0), s1)" "\<not> succeeded resp err0"
      "retryIf opts (classify (json_Unmarshal env) resp err0) s1 = (False, s2)"
      "Retry_body env opts f n tr s =
         Return ((None, classify (json_Unmarshal env) resp err0),
                 tr @ [Invoked resp err0,
                       RetryIfCalled (classify (json_Unmarshal env) resp err0) False], s2)"
  | (WaitCancelled) resp err0 s1 s2 d s4 s5 where
      "Err (ctxt opts) s = None" "f s = ((resp, err0), s1)" "\<not> succeeded resp err0"
      "retryIf opts (classify (json_Unmarshal env) resp err0) s1 = (True, s2)"
      "backoffDuration env opts
         (onRetry opts (n + 1) (classify (json_Unmarshal env) resp err0) s2) = (d, s4)"
      "Done (ctxt opts) d s4 = Some s5"
      "Retry_body env opts f n tr s =
         Return ((None, Err (ctxt opts) s5),
                 tr @ [Invoked resp err0,
                       RetryIfCalled (classify (json_Unmarshal env) resp err0) True,
                       OnRetryCalled (n + 1) (classify (json_Unmarshal env) resp err0),
                       WaitCancelled d], s5)"
  | (Continue) resp err0 s1 s2 d s4 where
      "Err (ctxt opts) s = None" "f s = ((resp, err0), s1)" "\<not> succeeded resp err0"
      "retryIf opts (classify (json_Unmarshal env) resp err0) s1 = (True, s2)"
      "backoffDuration env opts
         (onRetry opts (n + 1) (classify (json_Unmarshal env) resp err0) s2) = (d, s4)"
      "Done (ctxt opts) d s4 = None"
      "Retry_body env opts f n tr s =
         Continue (classify (json_Unmarshal env) resp err0)
           (tr @ [Invoked resp err0,
                  RetryIfCalled (classify (json_Unmarshal env) resp err0) True,
                  OnRetryCalled (n + 1) (classify (json_Unmarshal env) resp err0),
                  Waited d])
           (After (timer opts) d s4)"
proof (cases "Err (ctxt opts) s")
  case (Some cerr)
  then show ?thesis
    by (intro Cancelled [of cerr]) (simp_all add: Retry_body_def)
next
  case None
  obtain resp err0 s1 where f: "f s = ((resp, err0), s1)"
    by (metis prod.exhaust)
  show ?thesis
  proof (cases "succeeded resp err0")
    case True
    with None f show ?thesis
      by (intro Success [of resp err0 s1]) (simp_all add: Retry_body_def)
  next
    case failed: False
    obtain again s2
      where p: "retryIf opts (classify (json_Unmarshal env) resp err0) s1 = (again, s2)"
      by (metis prod.exhaust)
    show ?thesis
    proof (cases again)
      case False
      with None f failed p show ?thesis
        by (intro Vetoed [of resp err0 s1 s2]) (simp_all add: Retry_body_def Let_def)
    next
      case True
      obtain d s4 where b: "backoffDuration env opts
         (onRetry opts (n + 1) (classify (json_Unmarshal env) resp err0) s2) = (d, s4)"
        by (metis prod.exhaust)
      show ?thesis
      proof (cases "Done (ctxt opts) d s4")
        case fired: (Some s5)
        with None f failed p True b show ?thesis
          by (intro WaitCancelled [of resp err0 s1 s2 d s4 s5])
             (simp_all add: Retry_body_def Let_def)
      next
        case elapsed: None
        with \<open>Err (ctxt opts) s = None\<close> f failed p True b show ?thesis
          by (intro Continue [of resp err0 s1 s2 d s4])
             (simp_all add: Retry_body_def Let_def)
      qed
    qed
  qed
qed

lemma apply_options_append:
  "apply_options (xs @ ys) opts = apply_options ys (apply_options xs opts)"
  by (induction xs opts rule: apply_options.induct) simp_all

lemma Retry_body_Continue:
  assumes "Retry_body env opts f n tr s = Continue err tr' s'"
  obtains resp err0 s1 d where
    "f s = ((resp, err0), s1)" "\<not> succeeded resp err0"
    "err = classify (json_Unmarshal env) resp err0"
    "tr' = tr @ [Invoked resp err0, RetryIfCalled err True, OnRetryCalled (n + 1) err, Waited d]"
  using assms by (cases rule: Retry_body_cases [of opts s env f n tr]) auto

lemma Retry_body_Return:
  assumes "Retry_body env opts f n tr s = Return out"
  obtains
    (Cancelled) cerr where "Err (ctxt opts) s = Some cerr" "out = ((None, Some cerr), tr, s)"
  | (Success) resp err0 s1 where "f s = ((resp, err0), s1)" "succeeded resp err0"
      "out = ((resp, None), tr @ [Invoked resp err0], s1)"
  | (Vetoed) resp err0 s1 s2 where "f s = ((resp, err0), s1)" "\<not> succeeded resp err0"
      "retryIf opts (classify (json_Unmarshal env) resp err0) s1 = (False, s2)"
      "out = ((None, classify (json_Unmarshal env) resp err0),
              tr @ [Invoked resp err0,
                    RetryIfCalled (classify (json_Unmarshal env) resp err0) False], s2)"
  | (WaitCancelled) resp err0 s1 d s4 s5 where "f s = ((resp, err0), s1)"
      "\<not> succeeded resp err0" "Done (ctxt opts) d s4 = Some s5"
      "out = ((None, Err (ctxt opts) s5),
              tr @ [Invoked resp err0,
                    RetryIfCalled (classify (json_Unmarshal env) resp err0) True,
                    OnRetryCalled (n + 1) (classify (json_Unmarshal env) resp err0),
                    WaitCancelled d], s5)"
  using assms by (cases rule: Retry_body_cases [of opts s env f n tr]) auto

text \<open>
  The loop as a whole: an invariant \<open>I\<close> of the head of the loop that every completed
  pass keeps, and a property \<open>Q\<close> of every way out of it. The loop always ends.
\<close>

lemma Retry_loop_rule:
  assumes init: "I n lastErr tr s"
    and exhausted: "\<And>n lastErr tr s. I n lastErr tr s \<Longrightarrow> \<not> n < retries opts \<Longrightarrow>
           Q ((None, lastErr), tr, s)"
    and returned: "\<And>n lastErr tr s out. I n lastErr tr s \<Longrightarrow> n < retries opts \<Longrightarrow>
           Retry_body env opts f n tr s = Return out \<Longrightarrow> Q out"
    and continued: "\<And>n lastErr tr s err tr' s'. I n lastErr tr s \<Longrightarrow> n < retries opts \<Longrightarrow>
           Retry_body env opts f n tr s = Continue err tr' s' \<Longrightarrow> I (n + 1) err tr' s'"
  shows "Q (Retry_loop env opts f n lastErr tr s)"
  using assms
proof (induction env opts f n lastErr tr s rule: Retry_loop.induct)
  case (1 env opts f n lastErr tr s)
  note init = "1.prems"(1) and exhausted = "1.prems"(2) and returned = "1.prems"(3)
    and continued = "1.prems"(4)
  show ?case
  proof (cases "n < retries opts")
    case False
    with init exhausted show ?thesis
      by (simp add: Retry_loop_done)
  next
    case True
    show ?thesis
    proof (cases "Retry_body env opts f n tr s")
      case (Return out)
      with True init returned show ?thesis
        by (simp add: Retry_loop_Return)
    next
      case (Continue err tr' s')
      with True init continued have "I (n + 1) err tr' s'"
        by blast
      with "1.IH" [OF True Continue _ exhausted returned continued] True Continue
      show ?thesis
        by (simp add: Retry_loop_Continue)
    qed
  qed
qed

lemma Retry_loop_extends:
  "\<exists>evs. calls (Retry_loop env opts f n lastErr tr s) = tr @ evs"
proof (rule Retry_loop_rule [where I = "\<lambda>n lastErr tr' s. \<exists>evs. tr' = tr @ evs"])
  show "\<exists>evs. tr = tr @ evs" by simp
next
  fix n lastErr tr' s
  assume "\<exists>evs. tr' = tr @ evs"
  then show "\<exists>evs. calls ((None, lastErr), tr', s) = tr @ evs" by simp
next
  fix n lastErr tr' s out
  assume "\<exists>evs. tr' = tr @ evs" and "Retry_body env opts f n tr' s = Return out"
  then show "\<exists>evs. calls out = tr @ evs"
    by (elim Retry_body_Return) auto
next
  fix n lastErr tr' s err tr'' s'
  assume "\<exists>evs. tr' = tr @ evs" and "Retry_body env opts f n tr' s = Continue err tr'' s'"
  then show "\<exists>evs. tr'' = tr @ evs"
    by (elim Retry_body_Continue) auto
qed

lemma succeeded_iff:
  "succeeded resp err0 \<longleftrightarrow> err0 = None \<and> (\<exists>r. resp = Some r \<and> resp_StatusCode r = http_StatusOK)"
  by (simp add: succeeded_def split: option.splits)

lemma classify_eq_None:
  "classify unm resp err0 = None \<longleftrightarrow> resp = None \<and> err0 = None"
  by (auto simp: classify_def DecodeWatsonxError_def io_ReadAll_def NopCloser_Buffer_def Let_def
      split: option.splits sum.splits)

lemma last_invoked_append:
  "last_invoked (xs @ ys) =
     (case last_invoked ys of None \<Rightarrow> last_invoked xs | Some later \<Rightarrow> Some later)"
  by (induction xs rule: last_invoked.induct) (simp_all split: option.splits)

text \<open>
  The error of a failed attempt, case by case: a transport error as it is; else the error
  of reading the body; else a \<open>WatsonxError\<close> with the status alone, or with the
  details and the trace of the envelope.
\<close>

lemma classify_transport: "classify unm resp (Some e) = Some e"
  by (simp add: classify_def)

lemma classify_read_error:
  "failure (resp_Body r) = Some re \<Longrightarrow> classify unm (Some r) None = Some re"
  by (simp add: classify_def io_ReadAll_def)

lemma classify_status_only:
  "failure (resp_Body r) = None \<Longrightarrow>
   content (resp_Body r) = [] \<or> (\<exists>e. unm (content (resp_Body r)) = Inl e) \<Longrightarrow>
   classify unm (Some r) None
     = Some (WatsonxErr \<lparr>StatusCode = resp_StatusCode r, Errors = [], Trace = []\<rparr>)"
  by (auto simp: classify_def io_ReadAll_def NopCloser_Buffer_def DecodeWatsonxError_def Let_def)

lemma classify_envelope:
  "failure (resp_Body r) = None \<Longrightarrow> content (resp_Body r) \<noteq> [] \<Longrightarrow>
   unm (content (resp_Body r)) = Inr a \<Longrightarrow>
   classify unm (Some r) None
     = Some (WatsonxErr \<lparr>StatusCode = resp_StatusCode r, Errors = apiErrors a,
                          Trace = apiTrace a\<rparr>)"
  by (simp add: classify_def io_ReadAll_def NopCloser_Buffer_def DecodeWatsonxError_def Let_def)

text \<open>Below the bound of the loop, \<open>n + 1\<close> does not wrap around.\<close>

lemma uint_Suc:
  fixes n r :: uint
  assumes "n < r"
  shows "unat (n + 1) = Suc (unat n)"
proof -
  from assms have "unat n < unat r" by (simp add: word_less_nat_alt)
  moreover have "unat r < 2 ^ 64" using unsigned_less [of r] by simp
  ultimately have "unat n + 1 < 2 ^ 64" by linarith
  then show ?thesis by (simp add: unat_word_ariths)
qed

lemma uint_inc_le:
  fixes n r :: uint
  assumes "n < r"
  shows "n + 1 \<le> r"
  using assms uint_Suc [OF assms] by (simp add: word_le_nat_alt word_less_nat_alt)

lemma default_invariant: "RetryConfig_invariant (newDefaultRetryConfig env)"
  by (simp add: RetryConfig_invariant_def newDefaultRetryConfig_def time_Second_def word_sle_eq)

lemma checked_option_preserves:
  "checked_option (Some opt) \<Longrightarrow> RetryConfig_invariant cfg \<Longrightarrow> RetryConfig_invariant (opt cfg)"
  by (erule checked_option.cases)
     (simp_all add: RetryConfig_invariant_def WithRetries_def WithBackoff_def WithMaxJitter_def
        WithOnRetry_def WithRetryIf_def)

lemma apply_options_invariant:
  "\<forall>opt \<in> set options. checked_option opt \<Longrightarrow> RetryConfig_invariant cfg \<Longrightarrow>
   RetryConfig_invariant (apply_options options cfg)"
  by (induction options cfg rule: apply_options.induct) (simp_all add: checked_option_preserves)

lemma Retry_loop_invocations:
  "length (filter is_Invoked (calls (Retry_loop env opts f 0 None [] s))) \<le> unat (retries opts)"
proof (rule Retry_loop_rule
    [where I = "\<lambda>n lastErr tr s. n \<le> retries opts \<and> length (filter is_Invoked tr) \<le> unat n"])
  show "0 \<le> retries opts \<and> length (filter is_Invoked []) \<le> unat (0 :: uint)" by simp
next
  fix n :: uint and lastErr :: "error option" and tr :: "event list" and s :: 'a
  assume "n \<le> retries opts \<and> length (filter is_Invoked tr) \<le> unat n"
  then show "length (filter is_Invoked (calls ((None, lastErr), tr, s))) \<le> unat (retries opts)"
    by (simp add: word_le_nat_alt)
next
  fix n lastErr tr s out
  assume i: "n \<le> retries opts \<and> length (filter is_Invoked tr) \<le> unat n" and lt: "n < retries opts"
    and "Retry_body env opts f n tr s = Return out"
  then have "length (filter is_Invoked (calls out)) \<le> Suc (length (filter is_Invoked tr))"
    by (elim Retry_body_Return) auto
  with i lt show "length (filter is_Invoked (calls out)) \<le> unat (retries opts)"
    by (simp add: word_less_nat_alt)
next
  fix n lastErr tr s err tr' s'
  assume i: "n \<le> retries opts \<and> length (filter is_Invoked tr) \<le> unat n" and lt: "n < retries opts"
    and "Retry_body env opts f n tr s = Continue err tr' s'"
  then have "length (filter is_Invoked tr') = Suc (length (filter is_Invoked tr))"
    by (elim Retry_body_Continue) auto
  with i uint_Suc [OF lt] uint_inc_le [OF lt]
  show "n + 1 \<le> retries opts \<and> length (filter is_Invoked tr') \<le> unat (n + 1)"
    by simp
qed

text \<open>
  An operation that always fails, under the default predicate and the default context:
  every pass reaches the end of the body, and the loop runs to its bound.
\<close>

lemma attempt_numbers_append:
  "attempt_numbers (xs @ ys) = attempt_numbers xs @ attempt_numbers ys"
  by (induction xs rule: attempt_numbers.induct) simp_all

lemma Retry_body_failing:
  assumes fails: "snd (fst (f s)) \<noteq> None
      \<or> (\<exists>r. fst (fst (f s)) = Some r \<and> resp_StatusCode r \<noteq> http_StatusOK)"
    and pred: "retryIf opts = (\<lambda>err s. (err \<noteq> None, s))"
    and ctx: "ctxt opts = context_Background"
  obtains resp err0 s1 d s'' where
    "f s = ((resp, err0), s1)"
    "classify (json_Unmarshal env) resp err0 \<noteq> None"
    "Retry_body env opts f n tr s =
       Continue (classify (json_Unmarshal env) resp err0)
         (tr @ [Invoked resp err0,
                RetryIfCalled (classify (json_Unmarshal env) resp err0) True,
                OnRetryCalled (n + 1) (classify (json_Unmarshal env) resp err0),
                Waited d]) s''"
proof (cases rule: Retry_body_cases [of opts s env f n tr])
  case (Cancelled cerr)
  with ctx show ?thesis by (simp add: context_Background_def)
next
  case (Success resp err0 s1)
  with fails show ?thesis by (auto simp: succeeded_iff)
next
  case (Vetoed resp err0 s1 s2)
  with fails pred show ?thesis by (auto simp: classify_eq_None)
next
  case (WaitCancelled resp err0 s1 s2 d s4 s5)
  with ctx show ?thesis by (simp add: context_Background_def)
next
  case (Continue resp err0 s1 s2 d s4)
  with fails have "classify (json_Unmarshal env) resp err0 \<noteq> None"
    by (auto simp: classify_eq_None)
  with Continue that show ?thesis by blast
qed

lemma Retry_exhausts:
  assumes fails: "\<forall>s. snd (fst (f s)) \<noteq> None
      \<or> (\<exists>r. fst (fst (f s)) = Some r \<and> resp_StatusCode r \<noteq> http_StatusOK)"
    and pred: "retryIf opts = (\<lambda>err s. (err \<noteq> None, s))"
    and ctx: "ctxt opts = context_Background"
  shows "\<exists>e. returned (Retry_with env opts f s) = (None, e)
    \<and> length (filter is_Invoked (calls (Retry_with env opts f s))) = unat (retries opts)
    \<and> length (filter is_OnRetryCalled (calls (Retry_with env opts f s))) = unat (retries opts)
    \<and> length (filter is_Waited (calls (Retry_with env opts f s))) = unat (retries opts)
    \<and> attempt_numbers (calls (Retry_with env opts f s)) = map of_nat [1..<Suc (unat (retries opts))]
    \<and> (0 < retries opts \<longrightarrow>
         (\<exists>pre resp err0 d. calls (Retry_with env opts f s) =
             pre @ [Invoked resp err0, RetryIfCalled e True, OnRetryCalled (retries opts) e,
                    Waited d]
           \<and> e = classify (json_Unmarshal env) resp err0 \<and> e \<noteq> None))"
    (is "?Q (Retry_with env opts f s)")
proof -
  let ?I = "\<lambda>n lastErr tr (s :: 'a). n \<le> retries opts
     \<and> length (filter is_Invoked tr) = unat n
     \<and> length (filter is_OnRetryCalled tr) = unat n
     \<and> length (filter is_Waited tr) = unat n
     \<and> attempt_numbers tr = map of_nat [1..<Suc (unat n)]
     \<and> (0 < n \<longrightarrow>
         (\<exists>pre resp err0 d. tr =
             pre @ [Invoked resp err0, RetryIfCalled lastErr True, OnRetryCalled n lastErr,
                    Waited d]
           \<and> lastErr = classify (json_Unmarshal env) resp err0 \<and> lastErr \<noteq> None))"
  have "?Q (Retry_loop env opts f 0 None [] s)"
  proof (rule Retry_loop_rule [where I = ?I])
    show "?I 0 None [] s" by simp
  next
    fix n :: uint and lastErr :: "error option" and tr :: "event list" and s :: 'a
    assume "?I n lastErr tr s" and "\<not> n < retries opts"
    moreover from this have "n = retries opts" by simp
    ultimately show "?Q ((None, lastErr), tr, s)"
      by simp
  next
    fix n lastErr tr s out
    assume "Retry_body env opts f n tr s = Return out"
    moreover from fails have "snd (fst (f s)) \<noteq> None
      \<or> (\<exists>r. fst (fst (f s)) = Some r \<and> resp_StatusCode r \<noteq> http_StatusOK)"
      by blast
    from this pred ctx obtain err tr' s' where "Retry_body env opts f n tr s = Continue err tr' s'"
      by (rule Retry_body_failing)
    ultimately show "?Q out"
      by simp
  next
    fix n lastErr tr s err tr' s'
    assume i: "?I n lastErr tr s" and lt: "n < retries opts"
      and body: "Retry_body env opts f n tr s = Continue err tr' s'"
    from fails have "snd (fst (f s)) \<noteq> None
      \<or> (\<exists>r. fst (fst (f s)) = Some r \<and> resp_StatusCode r \<noteq> http_StatusOK)"
      by blast
    from this pred ctx obtain resp err0 s1 d s''
      where "classify (json_Unmarshal env) resp err0 \<noteq> None"
        and "Retry_body env opts f n tr s =
          Continue (classify (json_Unmarshal env) resp err0)
            (tr @ [Invoked resp err0,
                   RetryIfCalled (classify (json_Unmarshal env) resp err0) True,
                   OnRetryCalled (n + 1) (classify (json_Unmarshal env) resp err0),
                   Waited d]) s''"
      by (rule Retry_body_failing)
    with body have cl: "err = classify (json_Unmarshal env) resp err0" "err \<noteq> None"
      and tr': "tr' = tr @ [Invoked resp err0, RetryIfCalled err True,
                 OnRetryCalled (n + 1) err, Waited d]"
      by auto
    have suc: "unat (n + 1) = Suc (unat n)" by (rule uint_Suc [OF lt])
    have "of_nat (Suc (unat n)) = n + 1" by simp
    with i tr' suc have "attempt_numbers tr' = map of_nat [1..<Suc (unat (n + 1))]"
      by (simp add: attempt_numbers_append)
    with i tr' suc cl uint_inc_le [OF lt] show "?I (n + 1) err tr' s'"
      by auto
  qed
  then show ?thesis by (simp add: Retry_with_def)
qed

section \<open>errors.go: properties of DecodeWatsonxError\<close>

text \<open>
  C6. Decoding a response whose body is read without error, is not empty and parses as the
  error envelope yields a \<open>WatsonxError\<close> with the status code of the response, the
  details of the envelope in their order and its trace; the response is left with a
  fresh body over the same bytes, which a second read delivers in full.
\<close>

theorem DecodeWatsonxError_envelope:
  assumes "io_ReadAll (resp_Body r) = ((body, None), drained)"
    and "body \<noteq> []"
    and "unm body = Inr apiErr"
  shows "DecodeWatsonxError unm (Some r) =
           (Some (WatsonxErr \<lparr>StatusCode = resp_StatusCode r, Errors = apiErrors apiErr,
                               Trace = apiTrace apiErr\<rparr>),
            Some (Response (resp_StatusCode r) (NopCloser_Buffer body)))
         \<and> fst (io_ReadAll (NopCloser_Buffer body)) = (body, None)"
  using assms by (simp add: DecodeWatsonxError_def io_ReadAll_def NopCloser_Buffer_def)

text \<open>The instance of the tests: status 400 and the envelope with one detail.\<close>

theorem DecodeWatsonxError_envelope_witness:
  "DecodeWatsonxError unmarshal_fixture (Some (Response 400 (ReadCloser errorResponse None))) =
     (Some (WatsonxErr
        \<lparr>StatusCode = 400,
         Errors = [\<lparr>Code = ''invalid_request'', Message = ''Invalid input parameter'',
                    MoreInfo = ''Check request payload''\<rparr>],
         Trace = ''trace-id-123''\<rparr>),
      Some (Response 400 (NopCloser_Buffer errorResponse)))
   \<and> fst (io_ReadAll (NopCloser_Buffer errorResponse)) = (errorResponse, None)"
proof -
  have read: "io_ReadAll (resp_Body (Response 400 (ReadCloser errorResponse None))) =
      ((errorResponse, None), ReadCloser [] None)"
    by (simp add: io_ReadAll_def)
  have nonempty: "errorResponse \<noteq> []"
    by (simp add: errorResponse_def)
  have parsed: "unmarshal_fixture errorResponse =
      Inr (WatsonxErrorResponse
             [\<lparr>Code = ''invalid_request'', Message = ''Invalid input parameter'',
               MoreInfo = ''Check request payload''\<rparr>] ''trace-id-123'')"
    by (simp add: unmarshal_fixture_def)
  show ?thesis
    using DecodeWatsonxError_envelope [where unm = unmarshal_fixture, OF read nonempty parsed]
    by simp
qed

text \<open>
  C7. \<open>DecodeWatsonxError\<close> always returns a \<open>WatsonxError\<close>, never the error of the
  read or of the parse: for a nil response the zero value; for a response whose body
  cannot be read, is empty, or does not parse as the envelope, the status code alone.
\<close>

theorem DecodeWatsonxError_degrades:
  "(\<exists>w. fst (DecodeWatsonxError unm resp) = Some (WatsonxErr w))
   \<and> (resp = None \<longrightarrow>
        fst (DecodeWatsonxError unm resp)
          = Some (WatsonxErr \<lparr>StatusCode = 0, Errors = [], Trace = []\<rparr>))
   \<and> (\<forall>r. resp = Some r \<and>
          (failure (resp_Body r) \<noteq> None \<or> content (resp_Body r) = []
            \<or> (\<exists>e. unm (content (resp_Body r)) = Inl e)) \<longrightarrow>
        fst (DecodeWatsonxError unm resp)
          = Some (WatsonxErr \<lparr>StatusCode = resp_StatusCode r, Errors = [], Trace = []\<rparr>))"
  by (auto simp: DecodeWatsonxError_def io_ReadAll_def Let_def split: option.splits sum.splits)

text \<open>Status 500 with an empty body, and a body that is not the envelope.\<close>

theorem DecodeWatsonxError_degrades_witness:
  "fst (DecodeWatsonxError unmarshal_fixture (Some (Response 500 (ReadCloser [] None))))
     = Some (WatsonxErr \<lparr>StatusCode = 500, Errors = [], Trace = []\<rparr>)
   \<and> fst (DecodeWatsonxError unmarshal_fixture (Some (Response 502 (ReadCloser ''Bad Gateway'' None))))
     = Some (WatsonxErr \<lparr>StatusCode = 502, Errors = [], Trace = []\<rparr>)
   \<and> fst (DecodeWatsonxError unmarshal_fixture None)
     = Some (WatsonxErr \<lparr>StatusCode = 0, Errors = [], Trace = []\<rparr>)"
proof -
  have "unmarshal_fixture ''Bad Gateway'' = Inl (OtherError ''invalid character'')"
    by (simp add: unmarshal_fixture_def errorResponse_def)
  then show ?thesis
    using DecodeWatsonxError_degrades [of unmarshal_fixture "Some (Response 500 (ReadCloser [] None))"]
      DecodeWatsonxError_degrades [of unmarshal_fixture
        "Some (Response 502 (ReadCloser ''Bad Gateway'' None))"]
      DecodeWatsonxError_degrades [of unmarshal_fixture None]
    by simp
qed

section \<open>retry.go: properties of Retry\<close>

text \<open>
  C1, as the code has it. \<open>Retry\<close> never returns a response together with an error.
  It returns exactly one of the two when at least one attempt is configured, the operation
  never returns neither a response nor an error, and \<open>Err\<close> of the context is not nil
  once its \<open>Done\<close> has fired (as for \<open>context.Background\<close>, where it never fires).
\<close>

theorem Retry_response_or_error:
  "(fst (returned (Retry_with env opts f s)) \<noteq> None \<longrightarrow>
      snd (returned (Retry_with env opts f s)) = None)
   \<and> (0 < retries opts \<and> (\<forall>s. fst (f s) \<noteq> (None, None))
        \<and> (\<forall>d s s'. Done (ctxt opts) d s = Some s' \<longrightarrow> Err (ctxt opts) s' \<noteq> None) \<longrightarrow>
       (fst (returned (Retry_with env opts f s)) = None)
         \<noteq> (snd (returned (Retry_with env opts f s)) = None))"
proof (intro conjI impI)
  let ?Q = "\<lambda>out :: 'a outcome. fst (returned out) \<noteq> None \<longrightarrow> snd (returned out) = None"
  have "?Q (Retry_loop env opts f 0 None [] s)"
  proof (rule Retry_loop_rule [where I = "\<lambda>n lastErr tr s. True"])
    fix n lastErr tr s out
    assume "Retry_body env opts f n tr s = Return out"
    then show "?Q out"
      by (elim Retry_body_Return) auto
  qed simp_all
  moreover assume "fst (returned (Retry_with env opts f s)) \<noteq> None"
  ultimately show "snd (returned (Retry_with env opts f s)) = None"
    by (simp add: Retry_with_def)
next
  assume a: "0 < retries opts \<and> (\<forall>s. fst (f s) \<noteq> (None, None))
        \<and> (\<forall>d s s'. Done (ctxt opts) d s = Some s' \<longrightarrow> Err (ctxt opts) s' \<noteq> None)"
  let ?Q = "\<lambda>out :: 'a outcome. (fst (returned out) = None) \<noteq> (snd (returned out) = None)"
  have "?Q (Retry_loop env opts f 0 None [] s)"
  proof (rule Retry_loop_rule [where I = "\<lambda>n lastErr tr s. n \<noteq> 0 \<longrightarrow> lastErr \<noteq> None"])
    show "(0 :: uint) \<noteq> 0 \<longrightarrow> (None :: error option) \<noteq> None" by simp
  next
    fix n :: uint and lastErr :: "error option" and tr :: "event list" and s :: 'a
    assume "n \<noteq> 0 \<longrightarrow> lastErr \<noteq> None" and "\<not> n < retries opts"
    with a show "?Q ((None, lastErr), tr, s)"
      by auto
  next
    fix n lastErr tr s out
    assume "Retry_body env opts f n tr s = Return out"
    then show "?Q out"
    proof (cases rule: Retry_body_Return)
      case (Cancelled cerr)
      then show ?thesis by simp
    next
      case (Success resp err0 s1)
      then show ?thesis by (auto simp: succeeded_iff)
    next
      case (Vetoed resp err0 s1 s2)
      with a have "classify (json_Unmarshal env) resp err0 \<noteq> None"
        by (metis classify_eq_None fst_conv)
      with Vetoed show ?thesis by simp
    next
      case (WaitCancelled resp err0 s1 d s4 s5)
      with a show ?thesis by auto
    qed
  next
    fix n lastErr tr s err tr' s'
    assume "Retry_body env opts f n tr s = Continue err tr' s'"
    then have "err \<noteq> None"
      using a by (elim Retry_body_Continue) (metis classify_eq_None fst_conv)
    then show "n + 1 \<noteq> 0 \<longrightarrow> err \<noteq> None" by simp
  qed
  then show "(fst (returned (Retry_with env opts f s)) = None)
         \<noteq> (snd (returned (Retry_with env opts f s)) = None)"
    by (simp add: Retry_with_def)
qed

theorem Retry_response_or_error_witness:
  "snd (returned (Retry_with env0 (newDefaultRetryConfig env0) (server 200 ''ok'') 0)) = None
   \<and> (fst (returned (Retry_with env0 (newDefaultRetryConfig env0) (server 500 []) 0)) = None)
     \<noteq> (snd (returned (Retry_with env0 (newDefaultRetryConfig env0) (server 500 []) 0)) = None)"
proof -
  have "fst (returned (Retry_with env0 (newDefaultRetryConfig env0) (server 200 ''ok'') 0)) \<noteq> None"
    by code_simp
  then show ?thesis
    using Retry_response_or_error [of env0 "newDefaultRetryConfig env0" "server 200 ''ok''" 0]
      Retry_response_or_error [of env0 "newDefaultRetryConfig env0" "server 500 []" 0]
    by (simp add: fixture_defs config_defs)
qed

text \<open>
  Both absent: with \<open>WithRetries(0)\<close>, and for an operation that returns \<open>(nil, nil)\<close>
  under the default predicate, \<open>Retry\<close> returns a nil response and a nil error.
\<close>

theorem Retry_response_or_error_counterexample:
  "returned (Retry env0 (server 500 []) [Some (WithRetries 0)] 0) = (None, None)
   \<and> returned (Retry env0 no_answer [] 0) = (None, None)"
  by code_simp

text \<open>
  C2, as the code has it. After every failed attempt whose error \<open>retryIf\<close> accepts,
  the last one of the budget included, \<open>Retry\<close> calls \<open>onRetry\<close> with the number of
  the attempt and that error, and starts the wait. For an operation that always fails,
  under the default predicate and context, with \<open>m\<close> attempts configured: \<open>onRetry\<close>
  is called exactly \<open>m\<close> times, with the numbers 1 to \<open>m\<close>, exactly \<open>m\<close> waits are
  completed, and the run ends with the call numbered \<open>m\<close> and the wait after it.
\<close>

theorem Retry_onRetry_every_failure:
  "(n < retries opts \<and> Err (ctxt opts) s = None \<and> f s = ((resp, err0), s1)
      \<and> \<not> succeeded resp err0 \<and> err = classify (json_Unmarshal env) resp err0
      \<and> retryIf opts err s1 = (True, s2) \<longrightarrow>
    (\<exists>w rest. (is_Waited w \<or> is_WaitCancelled w)
       \<and> calls (Retry_loop env opts f n lastErr tr s) =
           tr @ [Invoked resp err0, RetryIfCalled err True, OnRetryCalled (n + 1) err, w] @ rest))
   \<and> ((\<forall>s. snd (fst (f s)) \<noteq> None
           \<or> (\<exists>r. fst (fst (f s)) = Some r \<and> resp_StatusCode r \<noteq> http_StatusOK))
        \<and> retryIf opts = retryIf (newDefaultRetryConfig env)
        \<and> ctxt opts = ctxt (newDefaultRetryConfig env) \<longrightarrow>
       length (filter is_OnRetryCalled (calls (Retry_with env opts f s0))) = unat (retries opts)
       \<and> attempt_numbers (calls (Retry_with env opts f s0))
           = map of_nat [1..<Suc (unat (retries opts))]
       \<and> length (filter is_Waited (calls (Retry_with env opts f s0))) = unat (retries opts)
       \<and> (0 < retries opts \<longrightarrow>
            (\<exists>pre e d. calls (Retry_with env opts f s0) =
                pre @ [OnRetryCalled (retries opts) e, Waited d])))"
proof (intro conjI impI)
  assume a: "n < retries opts \<and> Err (ctxt opts) s = None \<and> f s = ((resp, err0), s1)
      \<and> \<not> succeeded resp err0 \<and> err = classify (json_Unmarshal env) resp err0
      \<and> retryIf opts err s1 = (True, s2)"
  show "\<exists>w rest. (is_Waited w \<or> is_WaitCancelled w)
       \<and> calls (Retry_loop env opts f n lastErr tr s) =
           tr @ [Invoked resp err0, RetryIfCalled err True, OnRetryCalled (n + 1) err, w] @ rest"
  proof (cases "Retry_body env opts f n tr s")
    case (Return out)
    then have "\<exists>d. calls out =
        tr @ [Invoked resp err0, RetryIfCalled err True, OnRetryCalled (n + 1) err, WaitCancelled d]"
      using a by (elim Retry_body_Return) (auto simp: succeeded_iff)
    moreover from a Return have "Retry_loop env opts f n lastErr tr s = out"
      by (simp add: Retry_loop_Return)
    ultimately obtain d where "calls (Retry_loop env opts f n lastErr tr s) =
        tr @ [Invoked resp err0, RetryIfCalled err True, OnRetryCalled (n + 1) err, WaitCancelled d]"
      by blast
    then show ?thesis
      by (intro exI [of _ "WaitCancelled d"] exI [of _ "[]"]) simp
  next
    case (Continue err' tr' s')
    then have "\<exists>d. tr' =
        tr @ [Invoked resp err0, RetryIfCalled err True, OnRetryCalled (n + 1) err, Waited d]"
      using a by (elim Retry_body_Continue) auto
    then obtain d where tr': "tr' =
        tr @ [Invoked resp err0, RetryIfCalled err True, OnRetryCalled (n + 1) err, Waited d]"
      by blast
    from a Continue
    have "Retry_loop env opts f n lastErr tr s = Retry_loop env opts f (n + 1) err' tr' s'"
      by (simp add: Retry_loop_Continue)
    moreover obtain evs where "calls (Retry_loop env opts f (n + 1) err' tr' s') = tr' @ evs"
      using Retry_loop_extends [of env opts f "n + 1" err' tr' s'] by blast
    ultimately have "calls (Retry_loop env opts f n lastErr tr s) =
        tr @ [Invoked resp err0, RetryIfCalled err True, OnRetryCalled (n + 1) err, Waited d] @ evs"
      using tr' by simp
    then show ?thesis
      by (intro exI [of _ "Waited d"] exI [of _ evs]) simp
  qed
next
  assume h: "(\<forall>s. snd (fst (f s)) \<noteq> None
           \<or> (\<exists>r. fst (fst (f s)) = Some r \<and> resp_StatusCode r \<noteq> http_StatusOK))
        \<and> retryIf opts = retryIf (newDefaultRetryConfig env)
        \<and> ctxt opts = ctxt (newDefaultRetryConfig env)"
  then have pred: "retryIf opts = (\<lambda>err s. (err \<noteq> None, s))"
    and ctx: "ctxt opts = context_Background"
    by (simp_all add: newDefaultRetryConfig_def)
  from h have fails: "\<forall>s. snd (fst (f s)) \<noteq> None
           \<or> (\<exists>r. fst (fst (f s)) = Some r \<and> resp_StatusCode r \<noteq> http_StatusOK)"
    by blast
  note ex = Retry_exhausts [OF fails pred ctx, of env s0]
  from ex show "length (filter is_OnRetryCalled (calls (Retry_with env opts f s0))) = unat (retries opts)"
    by blast
  from ex show "attempt_numbers (calls (Retry_with env opts f s0))
           = map of_nat [1..<Suc (unat (retries opts))]"
    by blast
  from ex show "length (filter is_Waited (calls (Retry_with env opts f s0))) = unat (retries opts)"
    by blast
  assume "0 < retries opts"
  with ex obtain e pre resp err0 d where "calls (Retry_with env opts f s0) =
      pre @ [Invoked resp err0, RetryIfCalled e True, OnRetryCalled (retries opts) e, Waited d]"
    by blast
  then have "calls (Retry_with env opts f s0) =
      (pre @ [Invoked resp err0, RetryIfCalled e True]) @ [OnRetryCalled (retries opts) e, Waited d]"
    by simp
  then show "\<exists>pre e d. calls (Retry_with env opts f s0) =
                pre @ [OnRetryCalled (retries opts) e, Waited d]"
    by blast
qed

theorem Retry_onRetry_every_failure_witness:
  "(\<exists>w rest. (is_Waited w \<or> is_WaitCancelled w)
      \<and> calls (Retry env0 (server 429 []) [] 0) =
          [Invoked (Some (Response 429 (NopCloser_Buffer []))) None,
           RetryIfCalled (Some (WatsonxErr \<lparr>StatusCode = 429, Errors = [], Trace = []\<rparr>)) True,
           OnRetryCalled 1 (Some (WatsonxErr \<lparr>StatusCode = 429, Errors = [], Trace = []\<rparr>)),
           w] @ rest)
   \<and> length (filter is_OnRetryCalled (calls (Retry env0 (server 429 []) [] 0))) = 3
   \<and> attempt_numbers (calls (Retry env0 (server 429 []) [] 0)) = [1, 2, 3]
   \<and> length (filter is_Waited (calls (Retry env0 (server 429 []) [] 0))) = 3
   \<and> (\<exists>pre e d. calls (Retry env0 (server 429 []) [] 0) = pre @ [OnRetryCalled 3 e, Waited d])"
proof -
  have "[1..<Suc 3] = [1, 2, 3]"
    by (simp add: upt_rec)
  then show ?thesis
    using Retry_onRetry_every_failure [where f = "server 429 []"
        and opts = "newDefaultRetryConfig env0" and env = env0 and ?s0.0 = 0
        and n = 0 and s = 0 and resp = "Some (Response 429 (NopCloser_Buffer []))"
        and ?err0.0 = None and ?s1.0 = 1 and ?s2.0 = 1 and lastErr = None and tr = "[]"
        and err = "Some (WatsonxErr \<lparr>StatusCode = 429, Errors = [], Trace = []\<rparr>)"]
    by (simp add: Retry_def Retry_with_def fixture_defs config_defs attempt_defs)
qed

text \<open>
  The server of \<open>TestRetryWithNoSuccessStatusOnAnyRequest\<close> under the default
  configuration of three attempts: three calls of \<open>onRetry\<close> and three waits, the last
  wait after the third and final attempt; not two.
\<close>

theorem Retry_onRetry_counterexample:
  "unat (retries (newDefaultRetryConfig env0)) = 3
   \<and> length (filter is_Invoked (calls (Retry env0 (server 429 []) [] 0))) = 3
   \<and> length (filter is_OnRetryCalled (calls (Retry env0 (server 429 []) [] 0))) = 3
   \<and> length (filter is_Waited (calls (Retry env0 (server 429 []) [] 0))) = 3
   \<and> last (calls (Retry env0 (server 429 []) [] 0)) = Waited time_Second"
  by code_simp

text \<open>
  C3, as the code has it. With at least one attempt configured and a context that is not
  cancelled at the start, an operation whose first call returns no error and a response
  with status 200 makes \<open>Retry\<close> return that response and no error, after that one
  call and nothing else. A first call that returns an error, no response, or a status
  other than 200 is a failed attempt: its classified error is put to \<open>retryIf\<close>.
\<close>

theorem Retry_success_first:
  "(0 < retries opts \<and> Err (ctxt opts) s = None \<and> f s = ((Some r, None), s1)
      \<and> resp_StatusCode r = http_StatusOK \<longrightarrow>
    Retry_with env opts f s = ((Some r, None), [Invoked (Some r) None], s1))
   \<and> (0 < retries opts \<and> Err (ctxt opts) s = None \<and> f s = ((resp, err0), s1)
        \<and> (err0 \<noteq> None \<or> resp = None
             \<or> (\<exists>r. resp = Some r \<and> resp_StatusCode r \<noteq> http_StatusOK)) \<longrightarrow>
       (\<exists>again rest. calls (Retry_with env opts f s) =
           Invoked resp err0 # RetryIfCalled (classify (json_Unmarshal env) resp err0) again # rest))"
proof (intro conjI impI)
  assume "0 < retries opts \<and> Err (ctxt opts) s = None \<and> f s = ((Some r, None), s1)
      \<and> resp_StatusCode r = http_StatusOK"
  then have "0 < retries opts" and
    "Retry_body env opts f 0 [] s = Return ((Some r, None), [Invoked (Some r) None], s1)"
    by (auto simp: Retry_body_def succeeded_def)
  then show "Retry_with env opts f s = ((Some r, None), [Invoked (Some r) None], s1)"
    unfolding Retry_with_def by (rule Retry_loop_Return)
next
  assume a: "0 < retries opts \<and> Err (ctxt opts) s = None \<and> f s = ((resp, err0), s1)
        \<and> (err0 \<noteq> None \<or> resp = None
             \<or> (\<exists>r. resp = Some r \<and> resp_StatusCode r \<noteq> http_StatusOK))"
  then have failed: "\<not> succeeded resp err0"
    by (auto simp: succeeded_iff)
  let ?cl = "classify (json_Unmarshal env) resp err0"
  show "\<exists>again rest. calls (Retry_with env opts f s) =
           Invoked resp err0 # RetryIfCalled ?cl again # rest"
  proof (cases "Retry_body env opts f 0 [] s")
    case (Return out)
    then have "\<exists>again rest. calls out = Invoked resp err0 # RetryIfCalled ?cl again # rest"
      using a failed by (elim Retry_body_Return) auto
    with a Return show ?thesis
      by (simp add: Retry_with_def Retry_loop_Return)
  next
    case (Continue err tr' s')
    then have tr': "\<exists>d. tr' = [Invoked resp err0, RetryIfCalled ?cl True, OnRetryCalled 1 ?cl, Waited d]"
      using a by (elim Retry_body_Continue) auto
    from a Continue have "Retry_with env opts f s = Retry_loop env opts f (0 + 1) err tr' s'"
      by (simp add: Retry_with_def Retry_loop_Continue)
    with Retry_loop_extends [of env opts f "0 + 1" err tr' s'] tr' show ?thesis
      by auto
  qed
qed

theorem Retry_success_first_witness:
  "Retry env0 (server 200 ''ok'') [Some (WithRetries 7)] 0 =
     ((Some (Response 200 (NopCloser_Buffer ''ok'')), None),
      [Invoked (Some (Response 200 (NopCloser_Buffer ''ok''))) None], 1)
   \<and> (\<exists>again rest. calls (Retry env0 (server 404 []) [Some (WithRetries 7)] 0) =
         Invoked (Some (Response 404 (NopCloser_Buffer []))) None
         # RetryIfCalled (Some (WatsonxErr \<lparr>StatusCode = 404, Errors = [], Trace = []\<rparr>)) again
         # rest)"
  using Retry_success_first [where s = 0 and f = "server 200 ''ok''" and env = env0
      and opts = "apply_options [Some (WithRetries 7)] (newDefaultRetryConfig env0)"
      and r = "Response 200 (NopCloser_Buffer ''ok'')" and ?s1.0 = 1, THEN conjunct1]
    Retry_success_first [where s = 0 and f = "server 404 []" and env = env0
      and opts = "apply_options [Some (WithRetries 7)] (newDefaultRetryConfig env0)"
      and resp = "Some (Response 404 (NopCloser_Buffer []))" and ?err0.0 = None and ?s1.0 = 1,
      THEN conjunct2]
  by (simp add: Retry_def fixture_defs config_defs attempt_defs)

text \<open>
  With \<open>WithRetries(0)\<close> the operation that answers 200 is never called, and \<open>Retry\<close>
  returns a nil response.
\<close>

theorem Retry_success_first_counterexample:
  "fst (server 200 ''ok'' 0) = (Some (Response 200 (NopCloser_Buffer ''ok'')), None)
   \<and> returned (Retry env0 (server 200 ''ok'') [Some (WithRetries 0)] 0) = (None, None)
   \<and> length (filter is_Invoked (calls (Retry env0 (server 200 ''ok'') [Some (WithRetries 0)] 0))) = 0"
  by code_simp

text \<open>
  C4, as the code has it. For an operation of which every call returns an error, or a
  response whose status is not 200, under the default predicate and the default context,
  \<open>Retry\<close> calls the operation exactly \<open>retries\<close> times and returns a nil response.
  With at least one attempt, the error returned is the error of the last call alone, and
  it is not nil: the transport error of that call as it is; else the error of reading
  its body; else a \<open>WatsonxError\<close> with its status, and with the details and the trace
  of its envelope when the body is one. With no attempt the error returned is nil.
\<close>

theorem Retry_exhaustion:
  assumes "\<forall>s. snd (fst (f s)) \<noteq> None
      \<or> (\<exists>r. fst (fst (f s)) = Some r \<and> resp_StatusCode r \<noteq> http_StatusOK)"
    and "retryIf opts = retryIf (newDefaultRetryConfig env)"
    and "ctxt opts = ctxt (newDefaultRetryConfig env)"
  shows "length (filter is_Invoked (calls (Retry_with env opts f s))) = unat (retries opts)
    \<and> fst (returned (Retry_with env opts f s)) = None
    \<and> (retries opts = 0 \<longrightarrow> snd (returned (Retry_with env opts f s)) = None)
    \<and> (0 < retries opts \<longrightarrow>
         (\<exists>resp err0.
            last_invoked (calls (Retry_with env opts f s)) = Some (resp, err0)
          \<and> snd (returned (Retry_with env opts f s)) \<noteq> None
          \<and> (\<forall>e. err0 = Some e \<longrightarrow> snd (returned (Retry_with env opts f s)) = Some e)
          \<and> (\<forall>r re. err0 = None \<and> resp = Some r \<and> failure (resp_Body r) = Some re \<longrightarrow>
                snd (returned (Retry_with env opts f s)) = Some re)
          \<and> (\<forall>r. err0 = None \<and> resp = Some r \<and> failure (resp_Body r) = None
                \<and> (content (resp_Body r) = []
                     \<or> (\<exists>e. json_Unmarshal env (content (resp_Body r)) = Inl e)) \<longrightarrow>
                snd (returned (Retry_with env opts f s))
                  = Some (WatsonxErr \<lparr>StatusCode = resp_StatusCode r, Errors = [], Trace = []\<rparr>))
          \<and> (\<forall>r a. err0 = None \<and> resp = Some r \<and> failure (resp_Body r) = None
                \<and> content (resp_Body r) \<noteq> []
                \<and> json_Unmarshal env (content (resp_Body r)) = Inr a \<longrightarrow>
                snd (returned (Retry_with env opts f s))
                  = Some (WatsonxErr \<lparr>StatusCode = resp_StatusCode r, Errors = apiErrors a,
                                       Trace = apiTrace a\<rparr>))))"
proof -
  let ?out = "Retry_with env opts f s"
  from assms(2) have pred: "retryIf opts = (\<lambda>err s. (err \<noteq> None, s))"
    by (simp add: newDefaultRetryConfig_def)
  from assms(3) have ctx: "ctxt opts = context_Background"
    by (simp add: newDefaultRetryConfig_def)
  from Retry_exhausts [OF assms(1) pred ctx, of env s]
  obtain e where out: "returned ?out = (None, e)"
    and count: "length (filter is_Invoked (calls ?out)) = unat (retries opts)"
    and last: "0 < retries opts \<longrightarrow>
         (\<exists>pre resp err0 d. calls ?out =
             pre @ [Invoked resp err0, RetryIfCalled e True, OnRetryCalled (retries opts) e,
                    Waited d]
           \<and> e = classify (json_Unmarshal env) resp err0 \<and> e \<noteq> None)"
    by blast
  have none: "snd (returned ?out) = None" if "retries opts = 0"
  proof -
    from that have "\<not> 0 < retries opts" by simp
    then show ?thesis
      by (simp add: Retry_with_def Retry_loop_done)
  qed
  have some: "\<exists>resp err0.
            last_invoked (calls ?out) = Some (resp, err0)
          \<and> snd (returned ?out) \<noteq> None
          \<and> (\<forall>e. err0 = Some e \<longrightarrow> snd (returned ?out) = Some e)
          \<and> (\<forall>r re. err0 = None \<and> resp = Some r \<and> failure (resp_Body r) = Some re \<longrightarrow>
                snd (returned ?out) = Some re)
          \<and> (\<forall>r. err0 = None \<and> resp = Some r \<and> failure (resp_Body r) = None
                \<and> (content (resp_Body r) = []
                     \<or> (\<exists>e. json_Unmarshal env (content (resp_Body r)) = Inl e)) \<longrightarrow>
                snd (returned ?out)
                  = Some (WatsonxErr \<lparr>StatusCode = resp_StatusCode r, Errors = [], Trace = []\<rparr>))
          \<and> (\<forall>r a. err0 = None \<and> resp = Some r \<and> failure (resp_Body r) = None
                \<and> content (resp_Body r) \<noteq> []
                \<and> json_Unmarshal env (content (resp_Body r)) = Inr a \<longrightarrow>
                snd (returned ?out)
                  = Some (WatsonxErr \<lparr>StatusCode = resp_StatusCode r, Errors = apiErrors a,
                                       Trace = apiTrace a\<rparr>))"
    if "0 < retries opts"
  proof -
    from that last obtain pre resp err0 d where
      log: "calls ?out = pre @ [Invoked resp err0, RetryIfCalled e True,
              OnRetryCalled (retries opts) e, Waited d]"
      and e: "e = classify (json_Unmarshal env) resp err0" and "e \<noteq> None"
      by blast
    from log have "last_invoked (calls ?out) = Some (resp, err0)"
      by (simp add: last_invoked_append)
    moreover from out have "snd (returned ?out) = classify (json_Unmarshal env) resp err0"
      using e by simp
    moreover note \<open>e \<noteq> None\<close> e
    ultimately show ?thesis
      by (intro exI [of _ resp] exI [of _ err0])
         (auto simp: classify_transport classify_read_error classify_status_only
            classify_envelope)
  qed
  from out count none some show ?thesis
    by simp
qed

text \<open>
  One to four attempts at the operation that fails differently at each call: the error
  returned is that of the last attempt each time, none of the earlier ones.
\<close>

theorem Retry_exhaustion_witness:
  "length (filter is_Invoked (calls (Retry env0 flaky [Some (WithRetries 4)] 0))) = 4
   \<and> returned (Retry env0 flaky [Some (WithRetries 1)] 0)
       = (None, Some (OtherError ''connection refused''))
   \<and> returned (Retry env0 flaky [Some (WithRetries 2)] 0)
       = (None, Some (OtherError ''unexpected EOF''))
   \<and> returned (Retry env0 flaky [Some (WithRetries 3)] 0)
       = (None, Some (WatsonxErr \<lparr>StatusCode = 502, Errors = [], Trace = []\<rparr>))
   \<and> returned (Retry env0 flaky [Some (WithRetries 4)] 0)
       = (None, Some (WatsonxErr
            \<lparr>StatusCode = 400,
             Errors = [\<lparr>Code = ''invalid_request'', Message = ''Invalid input parameter'',
                        MoreInfo = ''Check request payload''\<rparr>],
             Trace = ''trace-id-123''\<rparr>))"
proof -
  let ?opts = "\<lambda>k. apply_options [Some (WithRetries k)] (newDefaultRetryConfig env0)"
  have fails: "\<forall>s. snd (fst (flaky s)) \<noteq> None
      \<or> (\<exists>r. fst (fst (flaky s)) = Some r \<and> resp_StatusCode r \<noteq> http_StatusOK)"
    by (simp add: flaky_def http_StatusOK_def)
  have pred: "retryIf (?opts k) = retryIf (newDefaultRetryConfig env0)"
    and ctx: "ctxt (?opts k) = ctxt (newDefaultRetryConfig env0)" for k
    by (simp_all add: config_defs)
  note ex = Retry_exhaustion [OF fails pred ctx, of _ 0]
  have bad: "unmarshal_fixture ''Bad Gateway'' = Inl (OtherError ''invalid character'')"
    by (simp add: unmarshal_fixture_def errorResponse_def)
  have good: "unmarshal_fixture errorResponse =
      Inr (WatsonxErrorResponse
             [\<lparr>Code = ''invalid_request'', Message = ''Invalid input parameter'',
               MoreInfo = ''Check request payload''\<rparr>] ''trace-id-123'')"
    and nonempty: "errorResponse \<noteq> []"
    by (simp_all add: unmarshal_fixture_def errorResponse_def)
  have l1: "last_invoked (calls (Retry_with env0 (?opts 1) flaky 0))
      = Some (None, Some (OtherError ''connection refused''))"
    by code_simp
  have l2: "last_invoked (calls (Retry_with env0 (?opts 2) flaky 0))
      = Some (Some (Response 503 (ReadCloser ''upstream'' (Some (OtherError ''unexpected EOF'')))),
              None)"
    by code_simp
  have l3: "last_invoked (calls (Retry_with env0 (?opts 3) flaky 0))
      = Some (Some (Response 502 (ReadCloser ''Bad Gateway'' None)), None)"
    by code_simp
  have l4: "last_invoked (calls (Retry_with env0 (?opts 4) flaky 0))
      = Some (Some (Response 400 (ReadCloser errorResponse None)), None)"
    by code_simp
  have r1: "returned (Retry_with env0 (?opts 1) flaky 0)
      = (None, Some (OtherError ''connection refused''))"
    using ex [of 1] l1 by (auto simp: config_defs prod_eq_iff)
  have r2: "returned (Retry_with env0 (?opts 2) flaky 0)
      = (None, Some (OtherError ''unexpected EOF''))"
    using ex [of 2] l2 by (auto simp: config_defs prod_eq_iff)
  have r3: "returned (Retry_with env0 (?opts 3) flaky 0)
      = (None, Some (WatsonxErr \<lparr>StatusCode = 502, Errors = [], Trace = []\<rparr>))"
    using ex [of 3] l3 bad by (auto simp: config_defs prod_eq_iff env0_def)
  have r4: "returned (Retry_with env0 (?opts 4) flaky 0)
      = (None, Some (WatsonxErr
            \<lparr>StatusCode = 400,
             Errors = [\<lparr>Code = ''invalid_request'', Message = ''Invalid input parameter'',
                        MoreInfo = ''Check request payload''\<rparr>],
             Trace = ''trace-id-123''\<rparr>))"
    using ex [of 4] l4 good nonempty by (auto simp: config_defs prod_eq_iff env0_def)
  have "length (filter is_Invoked (calls (Retry_with env0 (?opts 4) flaky 0))) = 4"
    using ex [of 4] by (simp add: config_defs)
  with r1 r2 r3 r4 show ?thesis
    by (simp add: Retry_def)
qed

text \<open>
  With \<open>WithRetries(0)\<close> the operation, which would fail, is never called, and the
  error returned is nil: no classified error of any attempt.
\<close>

theorem Retry_exhaustion_counterexample:
  "snd (fst (flaky 0)) \<noteq> None
   \<and> length (filter is_Invoked (calls (Retry env0 flaky [Some (WithRetries 0)] 0))) = 0
   \<and> snd (returned (Retry env0 flaky [Some (WithRetries 0)] 0)) = None"
  by code_simp

text \<open>
  C5. When \<open>retryIf\<close> answers false for the classified error of an attempt, whichever
  attempt it is and however many remain, \<open>Retry\<close> returns a nil response and that
  error at once: the call of \<open>retryIf\<close> is the last call of the run, so that no attempt,
  no \<open>onRetry\<close> and no wait follows. In every run a refusal of \<open>retryIf\<close> is the last
  call, and its argument is the error returned.
\<close>

theorem Retry_predicate_veto:
  "(n < retries opts \<and> Err (ctxt opts) s = None \<and> f s = ((resp, err0), s1)
      \<and> \<not> succeeded resp err0 \<and> err = classify (json_Unmarshal env) resp err0
      \<and> retryIf opts err s1 = (False, s2) \<longrightarrow>
    Retry_loop env opts f n lastErr tr s =
      ((None, err), tr @ [Invoked resp err0, RetryIfCalled err False], s2))
   \<and> (RetryIfCalled e False \<in> set (calls (Retry_with env opts f s0)) \<longrightarrow>
        returned (Retry_with env opts f s0) = (None, e)
        \<and> (\<exists>pre. calls (Retry_with env opts f s0) = pre @ [RetryIfCalled e False]
               \<and> (\<forall>e'. RetryIfCalled e' False \<notin> set pre)))"
proof (intro conjI impI)
  assume "n < retries opts \<and> Err (ctxt opts) s = None \<and> f s = ((resp, err0), s1)
      \<and> \<not> succeeded resp err0 \<and> err = classify (json_Unmarshal env) resp err0
      \<and> retryIf opts err s1 = (False, s2)"
  then have "n < retries opts" and
    "Retry_body env opts f n tr s =
       Return ((None, err), tr @ [Invoked resp err0, RetryIfCalled err False], s2)"
    by (auto simp: Retry_body_def Let_def)
  then show "Retry_loop env opts f n lastErr tr s =
      ((None, err), tr @ [Invoked resp err0, RetryIfCalled err False], s2)"
    by (rule Retry_loop_Return)
next
  let ?Q = "\<lambda>out. \<forall>e. RetryIfCalled e False \<in> set (calls out) \<longrightarrow>
              returned out = (None, e)
              \<and> (\<exists>pre. calls out = pre @ [RetryIfCalled e False]
                     \<and> (\<forall>e'. RetryIfCalled e' False \<notin> set pre))"
  have "?Q (Retry_loop env opts f 0 None [] s0)"
  proof (rule Retry_loop_rule [where I = "\<lambda>n lastErr tr s. \<forall>e'. RetryIfCalled e' False \<notin> set tr"])
    show "\<forall>e'. RetryIfCalled e' False \<notin> set []" by simp
  next
    fix n lastErr tr s
    assume "\<forall>e'. RetryIfCalled e' False \<notin> set tr"
    then show "?Q ((None, lastErr), tr, s)"
      by simp
  next
    fix n lastErr tr s out
    assume "\<forall>e'. RetryIfCalled e' False \<notin> set tr" and "Retry_body env opts f n tr s = Return out"
    then show "?Q out"
      by (elim Retry_body_Return) auto
  next
    fix n lastErr tr s err tr' s'
    assume "\<forall>e'. RetryIfCalled e' False \<notin> set tr"
      and "Retry_body env opts f n tr s = Continue err tr' s'"
    then show "\<forall>e'. RetryIfCalled e' False \<notin> set tr'"
      by (elim Retry_body_Continue) auto
  qed
  moreover assume "RetryIfCalled e False \<in> set (calls (Retry_with env opts f s0))"
  ultimately show "returned (Retry_with env opts f s0) = (None, e)"
    and "\<exists>pre. calls (Retry_with env opts f s0) = pre @ [RetryIfCalled e False]
               \<and> (\<forall>e'. RetryIfCalled e' False \<notin> set pre)"
    by (simp_all add: Retry_with_def)
qed

theorem Retry_predicate_veto_witness:
  "Retry env0 (server 500 []) [Some (WithRetryIf never_retry)] 0 =
     ((None, Some (WatsonxErr \<lparr>StatusCode = 500, Errors = [], Trace = []\<rparr>)),
      [Invoked (Some (Response 500 (NopCloser_Buffer []))) None,
       RetryIfCalled (Some (WatsonxErr \<lparr>StatusCode = 500, Errors = [], Trace = []\<rparr>)) False],
      1)
   \<and> (\<exists>pre. calls (Retry env0 (server 500 []) [Some (WithRetryIf never_retry)] 0)
         = pre @ [RetryIfCalled (Some (WatsonxErr \<lparr>StatusCode = 500, Errors = [], Trace = []\<rparr>)) False]
       \<and> (\<forall>e'. RetryIfCalled e' False \<notin> set pre))"
proof -
  let ?opts = "apply_options [Some (WithRetryIf never_retry)] (newDefaultRetryConfig env0)"
  let ?e = "Some (WatsonxErr \<lparr>StatusCode = 500, Errors = [], Trace = []\<rparr>)"
  have run: "Retry_loop env0 ?opts (server 500 []) 0 None [] 0 =
     ((None, ?e),
      [Invoked (Some (Response 500 (NopCloser_Buffer []))) None, RetryIfCalled ?e False], 1)"
    using Retry_predicate_veto [
      where n = 0 and opts = ?opts
        and s = 0 and f = "server 500 []" and resp = "Some (Response 500 (NopCloser_Buffer []))"
        and ?err0.0 = None and ?s1.0 = 1 and ?s2.0 = 1 and env = env0 and lastErr = None
        and tr = "[]" and err = ?e,
      THEN conjunct1]
    by (simp add: fixture_defs never_retry_def config_defs attempt_defs)
  then have "RetryIfCalled ?e False \<in> set (calls (Retry_with env0 ?opts (server 500 []) 0))"
    by (simp add: Retry_with_def)
  then have "\<exists>pre. calls (Retry_with env0 ?opts (server 500 []) 0) = pre @ [RetryIfCalled ?e False]
       \<and> (\<forall>e'. RetryIfCalled e' False \<notin> set pre)"
    using Retry_predicate_veto [where e = ?e and env = env0 and opts = ?opts
        and f = "server 500 []" and ?s0.0 = 0, THEN conjunct2]
    by blast
  with run show ?thesis
    by (simp add: Retry_def Retry_with_def)
qed

text \<open>
  C8, as the code has it. The default configuration satisfies the invariant, with three
  attempts. Options are applied unchecked: the configuration they produce satisfies the
  invariant when every argument of \<open>WithRetries\<close> is at least 1 and every argument of
  \<open>WithBackoff\<close> and \<open>WithMaxJitter\<close> is at least 0. \<open>retries\<close> counts attempts, not
  retries after a first attempt: the operation is never called more than \<open>retries\<close>
  times.
\<close>

theorem RetryConfig_invariant_checked:
  "RetryConfig_invariant (newDefaultRetryConfig env)
   \<and> retries (newDefaultRetryConfig env) = 3
   \<and> ((\<forall>opt \<in> set options. checked_option opt) \<longrightarrow>
        RetryConfig_invariant (apply_options options (newDefaultRetryConfig env)))
   \<and> length (filter is_Invoked (calls (Retry env f options s)))
        \<le> unat (retries (apply_options options (newDefaultRetryConfig env)))"
  using default_invariant [of env] apply_options_invariant [of options "newDefaultRetryConfig env"]
    Retry_loop_invocations [of env "apply_options options (newDefaultRetryConfig env)" f s]
  by (simp add: Retry_def Retry_with_def newDefaultRetryConfig_def)

theorem RetryConfig_invariant_checked_witness:
  "RetryConfig_invariant
     (apply_options [Some (WithRetries 5), None, Some (WithBackoff (2 * time_Second))]
        (newDefaultRetryConfig env0))
   \<and> length (filter is_Invoked
        (calls (Retry env0 (server 429 [])
           [Some (WithRetries 5), None, Some (WithBackoff (2 * time_Second))] 0))) \<le> 5"
proof -
  have "checked_option (Some (WithRetries 5 :: nat RetryOption))"
    by (rule checked_option.retries) simp
  moreover have "checked_option (Some (WithBackoff (2 * time_Second) :: nat RetryOption))"
    by (rule checked_option.backoff) (simp add: time_Second_def word_sle_eq)
  moreover have "checked_option (None :: nat RetryOption option)"
    by (rule checked_option.nil)
  ultimately show ?thesis
    using RetryConfig_invariant_checked [of env0
        "[Some (WithRetries 5), None, Some (WithBackoff (2 * time_Second))]" "server 429 []" 0]
    by (simp add: config_defs)
qed

text \<open>\<open>WithRetries(0)\<close> and \<open>WithBackoff(-1)\<close> each produce a configuration outside the invariant.\<close>

theorem RetryConfig_invariant_counterexample:
  "\<not> RetryConfig_invariant (apply_options [Some (WithRetries 0)] (newDefaultRetryConfig env0))
   \<and> \<not> RetryConfig_invariant (apply_options [Some (WithBackoff (- 1))] (newDefaultRetryConfig env0))"
  by (simp add: RetryConfig_invariant_def config_defs word_sle_eq)

text \<open>
  C9. When \<open>Err\<close> of the context is not nil as an attempt is about to start, \<open>Retry\<close>
  returns a nil response and that error, and makes no call. When the \<open>Done\<close> of the
  context is the case taken during a wait, \<open>Retry\<close> returns a nil response and the
  \<open>Err\<close> of the context at that moment; in every run an abandoned wait is the last
  call, so that no attempt follows it.
\<close>

theorem Retry_cancellation:
  "(n < retries opts \<and> Err (ctxt opts) s = Some cerr \<longrightarrow>
      Retry_loop env opts f n lastErr tr s = ((None, Some cerr), tr, s))
   \<and> (n < retries opts \<and> Err (ctxt opts) s = None \<and> f s = ((resp, err0), s1)
        \<and> \<not> succeeded resp err0 \<and> err = classify (json_Unmarshal env) resp err0
        \<and> retryIf opts err s1 = (True, s2)
        \<and> backoffDuration env opts (onRetry opts (n + 1) err s2) = (d, s4)
        \<and> Done (ctxt opts) d s4 = Some s5 \<longrightarrow>
      Retry_loop env opts f n lastErr tr s =
        ((None, Err (ctxt opts) s5),
         tr @ [Invoked resp err0, RetryIfCalled err True, OnRetryCalled (n + 1) err,
               WaitCancelled d], s5))
   \<and> (WaitCancelled d' \<in> set (calls (Retry_with env opts f s0)) \<longrightarrow>
        returned (Retry_with env opts f s0)
          = (None, Err (ctxt opts) (world (Retry_with env opts f s0)))
        \<and> (\<exists>pre. calls (Retry_with env opts f s0) = pre @ [WaitCancelled d']
               \<and> \<not> list_ex is_WaitCancelled pre))"
proof (intro conjI impI)
  assume "n < retries opts \<and> Err (ctxt opts) s = Some cerr"
  then have "n < retries opts" and
    "Retry_body env opts f n tr s = Return ((None, Some cerr), tr, s)"
    by (simp_all add: Retry_body_def)
  then show "Retry_loop env opts f n lastErr tr s = ((None, Some cerr), tr, s)"
    by (rule Retry_loop_Return)
next
  assume "n < retries opts \<and> Err (ctxt opts) s = None \<and> f s = ((resp, err0), s1)
        \<and> \<not> succeeded resp err0 \<and> err = classify (json_Unmarshal env) resp err0
        \<and> retryIf opts err s1 = (True, s2)
        \<and> backoffDuration env opts (onRetry opts (n + 1) err s2) = (d, s4)
        \<and> Done (ctxt opts) d s4 = Some s5"
  then have "n < retries opts" and
    "Retry_body env opts f n tr s =
       Return ((None, Err (ctxt opts) s5),
               tr @ [Invoked resp err0, RetryIfCalled err True, OnRetryCalled (n + 1) err,
                     WaitCancelled d], s5)"
    by (auto simp: Retry_body_def Let_def)
  then show "Retry_loop env opts f n lastErr tr s =
        ((None, Err (ctxt opts) s5),
         tr @ [Invoked resp err0, RetryIfCalled err True, OnRetryCalled (n + 1) err,
               WaitCancelled d], s5)"
    by (rule Retry_loop_Return)
next
  let ?Q = "\<lambda>out. \<forall>d. WaitCancelled d \<in> set (calls out) \<longrightarrow>
              returned out = (None, Err (ctxt opts) (world out))
              \<and> (\<exists>pre. calls out = pre @ [WaitCancelled d] \<and> \<not> list_ex is_WaitCancelled pre)"
  have "?Q (Retry_loop env opts f 0 None [] s0)"
  proof (rule Retry_loop_rule [where I = "\<lambda>n lastErr tr s. \<not> list_ex is_WaitCancelled tr"])
    show "\<not> list_ex is_WaitCancelled []" by simp
  next
    fix n lastErr tr s
    assume "\<not> list_ex is_WaitCancelled tr"
    then show "?Q ((None, lastErr), tr, s)"
      by (auto simp: list_ex_iff)
  next
    fix n lastErr tr s out
    assume "\<not> list_ex is_WaitCancelled tr" and "Retry_body env opts f n tr s = Return out"
    then show "?Q out"
      by (elim Retry_body_Return) (auto simp: list_ex_iff)
  next
    fix n lastErr tr s err tr' s'
    assume "\<not> list_ex is_WaitCancelled tr" and "Retry_body env opts f n tr s = Continue err tr' s'"
    then show "\<not> list_ex is_WaitCancelled tr'"
      by (elim Retry_body_Continue) (auto simp: list_ex_iff)
  qed
  moreover assume "WaitCancelled d' \<in> set (calls (Retry_with env opts f s0))"
  ultimately show "returned (Retry_with env opts f s0)
          = (None, Err (ctxt opts) (world (Retry_with env opts f s0)))"
    and "\<exists>pre. calls (Retry_with env opts f s0) = pre @ [WaitCancelled d']
               \<and> \<not> list_ex is_WaitCancelled pre"
    by (simp_all add: Retry_with_def)
qed

theorem Retry_cancellation_witness:
  "Retry_with env0 (with_context (cancelled_after 0) (newDefaultRetryConfig env0)) (server 500 []) 0
     = ((None, Some canceled), [], 0)
   \<and> Retry_with env0 (with_context (cancelled_after 1) (newDefaultRetryConfig env0)) (server 500 []) 0
     = ((None, Some canceled),
        [Invoked (Some (Response 500 (NopCloser_Buffer []))) None,
         RetryIfCalled (Some (WatsonxErr \<lparr>StatusCode = 500, Errors = [], Trace = []\<rparr>)) True,
         OnRetryCalled 1 (Some (WatsonxErr \<lparr>StatusCode = 500, Errors = [], Trace = []\<rparr>)),
         WaitCancelled time_Second], 1)
   \<and> (\<exists>pre. calls (Retry_with env0 (with_context (cancelled_after 1) (newDefaultRetryConfig env0))
                (server 500 []) 0) = pre @ [WaitCancelled time_Second]
          \<and> \<not> list_ex is_WaitCancelled pre)"
proof -
  let ?before = "with_context (cancelled_after 0) (newDefaultRetryConfig env0)"
  let ?during = "with_context (cancelled_after 1) (newDefaultRetryConfig env0)"
  let ?e = "Some (WatsonxErr \<lparr>StatusCode = 500, Errors = [], Trace = []\<rparr>)"
  have before: "Retry_loop env0 ?before (server 500 []) 0 None [] 0 = ((None, Some canceled), [], 0)"
    using Retry_cancellation [where n = 0 and opts = ?before and s = 0 and cerr = canceled
        and env = env0 and f = "server 500 []" and lastErr = None and tr = "[]", THEN conjunct1]
    by (simp add: fixture_defs config_defs canceled_def cancelled_after_def with_context_def)
  have during: "Retry_loop env0 ?during (server 500 []) 0 None [] 0 =
      ((None, Some canceled),
       [Invoked (Some (Response 500 (NopCloser_Buffer []))) None, RetryIfCalled ?e True,
        OnRetryCalled 1 ?e, WaitCancelled time_Second], 1)"
    using Retry_cancellation [where n = 0 and opts = ?during and s = 0
        and env = env0 and f = "server 500 []" and lastErr = None and tr = "[]"
        and resp = "Some (Response 500 (NopCloser_Buffer []))" and ?err0.0 = None and ?s1.0 = 1
        and err = ?e and ?s2.0 = 1 and d = time_Second and ?s4.0 = 1 and ?s5.0 = 1,
        THEN conjunct2, THEN conjunct1]
    by (simp add: fixture_defs config_defs attempt_defs canceled_def cancelled_after_def
        with_context_def)
  then have "WaitCancelled time_Second \<in> set (calls (Retry_with env0 ?during (server 500 []) 0))"
    by (simp add: Retry_with_def)
  then have "\<exists>pre. calls (Retry_with env0 ?during (server 500 []) 0) = pre @ [WaitCancelled time_Second]
             \<and> \<not> list_ex is_WaitCancelled pre"
    using Retry_cancellation [where d' = time_Second and env = env0 and opts = ?during
        and f = "server 500 []" and ?s0.0 = 0, THEN conjunct2, THEN conjunct2]
    by blast
  with before during show ?thesis
    by (simp add: Retry_with_def)
qed

text \<open>
  C10. When the configuration built from the options has zero attempts, as it has when
  \<open>WithRetries(0)\<close> is the last option, \<open>Retry\<close> returns a nil response and a nil
  error; it calls neither the operation, nor \<open>onRetry\<close>, nor \<open>retryIf\<close>, and the
  world is as it was.
\<close>

theorem Retry_zero_attempts:
  "(retries (apply_options options (newDefaultRetryConfig env)) = 0 \<longrightarrow>
      Retry env retryableFunc options s = ((None, None), [], s))
   \<and> Retry env retryableFunc (options @ [Some (WithRetries 0)]) s = ((None, None), [], s)"
  by (simp add: Retry_def Retry_with_def apply_options_append WithRetries_def Retry_loop_done)

theorem Retry_zero_attempts_witness:
  "Retry env0 (server 200 ''ok'') [Some (WithRetries 0), Some (WithBackoff 5)] 0
     = ((None, None), [], 0)
   \<and> Retry env0 (server 200 ''ok'') [Some (WithBackoff 5), Some (WithRetries 0)] 0
     = ((None, None), [], 0)"
  using Retry_zero_attempts [of "[Some (WithRetries 0), Some (WithBackoff 5)]" env0
      "server 200 ''ok''" 0]
    Retry_zero_attempts [of "[Some (WithBackoff 5)]" env0 "server 200 ''ok''" 0]
  by (simp add: WithRetries_def WithBackoff_def)

end
